theory Spec2Isabelle
  imports Complex_Main "HOL-Library.Sublist" "HOL-Library.Multiset" "HOL-Library.Log_Nat"
begin

section \<open>The JavaScript values that \<open>vsize.ts\<close> computes with\<close>

text \<open>
  \<open>src/provider/chains/btc/sdk/vsize.ts\<close> computes with JavaScript numbers. A finite
  double is modelled by the rational it denotes. Sums and products are taken exactly: the
  values that are added and multiplied are table entries, buffer lengths, multiples of
  \<open>0.25\<close> and integers of the size of a buffer length, far below \<open>2^53\<close> for any array and
  string that JavaScript can hold, and on those the arithmetic of doubles is exact. The
  quotient of the payload length by the limit is not of that kind, and division rounds
  it as IEEE 754 does. \<open>-0\<close> is not told apart from \<open>0\<close>. \<open>NaN\<close> and the two infinities are
  values of their own, because the size limit is typed \<open>number\<close> and may be any of them.
\<close>

datatype jsnum = Fin rat | NaN | PInf | NInf

fun num_add :: "jsnum \<Rightarrow> jsnum \<Rightarrow> jsnum" where
  "num_add (Fin a) (Fin b) = Fin (a + b)"
| "num_add NaN _ = NaN"
| "num_add _ NaN = NaN"
| "num_add PInf NInf = NaN"
| "num_add NInf PInf = NaN"
| "num_add PInf _ = PInf"
| "num_add _ PInf = PInf"
| "num_add NInf _ = NInf"
| "num_add _ NInf = NInf"

fun num_mul :: "jsnum \<Rightarrow> jsnum \<Rightarrow> jsnum" where
  "num_mul (Fin a) (Fin b) = Fin (a * b)"
| "num_mul NaN _ = NaN"
| "num_mul _ NaN = NaN"
| "num_mul (Fin a) PInf = (if a = 0 then NaN else if 0 < a then PInf else NInf)"
| "num_mul (Fin a) NInf = (if a = 0 then NaN else if 0 < a then NInf else PInf)"
| "num_mul PInf (Fin b) = (if b = 0 then NaN else if 0 < b then PInf else NInf)"
| "num_mul NInf (Fin b) = (if b = 0 then NaN else if 0 < b then NInf else PInf)"
| "num_mul PInf PInf = PInf"
| "num_mul NInf NInf = PInf"
| "num_mul PInf NInf = NInf"
| "num_mul NInf PInf = NInf"

text \<open>
  Rounding to the nearest double, ties to even: 53 significant bits, the exponent of the
  last bit not below \<open>-1074\<close> (subnormals), and an infinity once the rounded value
  reaches \<open>2^1024\<close>. \<open>ilog2 a\<close> is the exponent of the leading bit of \<open>a > 0\<close>.
\<close>

definition pow2 :: "int \<Rightarrow> rat" where
  "pow2 k = (if 0 \<le> k then 2 ^ nat k else 1 / 2 ^ nat (- k))"

definition ilog2 :: "rat \<Rightarrow> int" where
  "ilog2 a = (let (n, d) = quotient_of a; k = bitlen n - bitlen d
              in if pow2 k \<le> a then k else k - 1)"

definition round_half_even :: "rat \<Rightarrow> int" where
  "round_half_even x =
     (let m = \<lfloor>x\<rfloor>; f = x - of_int m
      in if f < 1 / 2 then m else if 1 / 2 < f then m + 1 else if even m then m else m + 1)"

definition round_double :: "rat \<Rightarrow> jsnum" where
  "round_double r =
     (if r = 0 then Fin 0
      else let a = \<bar>r\<bar>;
               e = max (ilog2 a) (- 1022);
               ulp = pow2 (e - 52);
               v = of_int (round_half_even (a / ulp)) * ulp
           in if pow2 1024 \<le> v then (if 0 < r then PInf else NInf)
              else Fin (if 0 < r then v else - v))"

text \<open>
  Division by zero gives \<open>NaN\<close> for a zero dividend and an infinity otherwise (of the
  dividend's sign, as for \<open>+0\<close>); a finite number divided by an infinity is zero; any
  other quotient is rounded to the nearest double.
\<close>

fun num_div :: "jsnum \<Rightarrow> jsnum \<Rightarrow> jsnum" where
  "num_div NaN _ = NaN"
| "num_div _ NaN = NaN"
| "num_div (Fin a) (Fin b) =
     (if b = 0 then (if a = 0 then NaN else if 0 < a then PInf else NInf)
      else round_double (a / b))"
| "num_div (Fin a) _ = Fin 0"
| "num_div PInf (Fin b) = (if b < 0 then NInf else PInf)"
| "num_div NInf (Fin b) = (if b < 0 then PInf else NInf)"
| "num_div _ _ = NaN"

fun Math_ceil :: "jsnum \<Rightarrow> jsnum" where
  "Math_ceil (Fin r) = Fin (of_int \<lceil>r\<rceil>)"
| "Math_ceil n = n"

fun Math_trunc :: "jsnum \<Rightarrow> jsnum" where
  "Math_trunc (Fin r) = Fin (of_int (if r < 0 then \<lceil>r\<rceil> else \<lfloor>r\<rfloor>))"
| "Math_trunc n = n"

text \<open>The comparisons \<open><\<close> and \<open><=\<close> of JavaScript: false as soon as an operand is \<open>NaN\<close>.\<close>

fun num_less :: "jsnum \<Rightarrow> jsnum \<Rightarrow> bool" where
  "num_less NaN _ = False"
| "num_less _ NaN = False"
| "num_less (Fin a) (Fin b) = (a < b)"
| "num_less _ NInf = False"
| "num_less PInf _ = False"
| "num_less _ _ = True"

fun num_le :: "jsnum \<Rightarrow> jsnum \<Rightarrow> bool" where
  "num_le NaN _ = False"
| "num_le _ NaN = False"
| "num_le a b = (a = b \<or> num_less a b)"

text \<open>
  Besides numbers, three more kinds of value can reach the accumulator \<open>vsize\<close>:
  \<open>undefined\<close> (a property that is not found), \<open>Obj\<close> (a function or object that a property
  lookup finds on \<open>Object.prototype\<close>) and \<open>Str\<close> (a string that holds the printed form of
  such an object, as \<open>0 + Object\<close> gives \<open>"0function Object() { [native code] }"\<close>). The
  printed form of each of them contains \<open>[\<close> and only ever grows by concatenation, so it
  never reads as a number: one constructor stands for all such strings.
\<close>

datatype jsval = Num jsnum | Undefined | Obj | Str

fun ToNumber :: "jsval \<Rightarrow> jsnum" where
  "ToNumber (Num n) = n"
| "ToNumber Undefined = NaN"
| "ToNumber Obj = NaN"
| "ToNumber Str = NaN"

fun truthy :: "jsval \<Rightarrow> bool" where
  "truthy (Num (Fin r)) = (r \<noteq> 0)"
| "truthy (Num NaN) = False"
| "truthy (Num _) = True"
| "truthy Undefined = False"
| "truthy Obj = True"
| "truthy Str = True"

definition js_or :: "jsval \<Rightarrow> jsval \<Rightarrow> jsval" where
  \<comment> \<open>\<open>a || b\<close>\<close>
  "js_or a b = (if truthy a then a else b)"

fun js_plus :: "jsval \<Rightarrow> jsval \<Rightarrow> jsval" where
  \<comment> \<open>\<open>a + b\<close>: addition of numbers, concatenation once an operand is an object or a string\<close>
  "js_plus (Num a) (Num b) = Num (num_add a b)"
| "js_plus (Num a) Undefined = Num NaN"
| "js_plus Undefined (Num b) = Num NaN"
| "js_plus Undefined Undefined = Num NaN"
| "js_plus _ _ = Str"

subsection \<open>Strings, buffers and object literals\<close>

text \<open>
  A string is represented by its UTF-8 bytes, which is what \<open>Buffer.from\<close> returns and what
  \<open>length\<close> of the buffer counts. The needle \<open>P2WPKH\<close> and the table keys are ASCII, so that
  searching and comparing the bytes agrees with searching and comparing the string.
  \<open>Buffer\<close> is the one of Node.js: \<open>slice\<close> clamps its bounds with \<open>adjustOffset\<close>.
\<close>

fun String_includes :: "string \<Rightarrow> string \<Rightarrow> bool" where
  \<comment> \<open>\<open>s.includes(needle)\<close>\<close>
  "String_includes [] needle = (needle = [])"
| "String_includes (c # cs) needle = (prefix needle (c # cs) \<or> String_includes cs needle)"

definition Buffer_from :: "string \<Rightarrow> char list" where
  "Buffer_from s = s"

definition adjustOffset :: "jsnum \<Rightarrow> nat \<Rightarrow> nat" where
  \<comment> \<open>Node's clamping of a slice bound: truncate, \<open>0\<close> for \<open>NaN\<close>, count from the end when negative\<close>
  "adjustOffset offset len =
     (case Math_trunc offset of
        NaN \<Rightarrow> 0
      | PInf \<Rightarrow> len
      | NInf \<Rightarrow> 0
      | Fin r \<Rightarrow>
          if r = 0 then 0
          else if r < 0 then (if 0 < r + of_nat len then nat \<lfloor>r + of_nat len\<rfloor> else 0)
          else if r < of_nat len then nat \<lfloor>r\<rfloor>
          else len)"

definition Buffer_slice :: "char list \<Rightarrow> jsnum \<Rightarrow> jsnum \<Rightarrow> char list" where
  \<comment> \<open>\<open>buffer.slice(start, end)\<close>\<close>
  "Buffer_slice buffer start end' =
     (let s = adjustOffset start (length buffer);
          e = adjustOffset end' (length buffer);
          newLength = (if s < e then e - s else 0)
      in take newLength (drop s buffer))"

text \<open>
  The lookup tables are object literals. \<open>table[key]\<close> finds the table's own property or,
  failing that, the property of that name which every object inherits from
  \<open>Object.prototype\<close>; only when there is neither is the result \<open>undefined\<close>.
\<close>

definition Object_prototype_keys :: "string list" where
  "Object_prototype_keys =
     [''constructor'', ''__defineGetter__'', ''__defineSetter__'', ''hasOwnProperty'',
      ''__lookupGetter__'', ''__lookupSetter__'', ''isPrototypeOf'', ''propertyIsEnumerable'',
      ''toString'', ''valueOf'', ''__proto__'', ''toLocaleString'']"

definition get_property :: "(string \<times> rat) list \<Rightarrow> string \<Rightarrow> jsval" where
  "get_property table key =
     (case map_of table key of
        Some v \<Rightarrow> Num (Fin v)
      | None \<Rightarrow> if key \<in> set Object_prototype_keys then Obj else Undefined)"

section \<open>The size estimator\<close>

definition HEADER_VSIZE :: rat where
  "HEADER_VSIZE = 10"

definition SEGWIT_HEADER_EXTENSION_VSIZE :: rat where
  "SEGWIT_HEADER_EXTENSION_VSIZE = 1 / 2"

definition INPUT_VSIZE_LOOKUP :: "(string \<times> rat) list" where
  "INPUT_VSIZE_LOOKUP = [(''P2PKH'', 148), (''P2WPKH'', 68), (''P2SH-P2WPKH'', 91)]"

definition SEGWIT_INPUT_WITNESS_ITEM_COUNT_VSIZE :: rat where
  "SEGWIT_INPUT_WITNESS_ITEM_COUNT_VSIZE = 1 / 4"

definition OUTPUT_VSIZE_LOOKUP :: "(string \<times> rat) list" where
  "OUTPUT_VSIZE_LOOKUP = [(''P2PKH'', 34), (''P2WPKH'', 31), (''P2SH-P2WPKH'', 32)]"

definition OP_RETURN_OUTPUT_PREFIX_VSIZE :: rat where
  "OP_RETURN_OUTPUT_PREFIX_VSIZE = 12"

definition PLACEHOLDER_VSIZE :: jsnum where
  "PLACEHOLDER_VSIZE = Fin 79"

definition TX_OP_RETURN_SIZE_LIMIT :: jsnum where
  "TX_OP_RETURN_SIZE_LIMIT = Fin 80"

text \<open>An optional argument is \<open>None\<close> when the caller leaves it out.\<close>

definition loadOPReturn :: "string \<Rightarrow> jsnum option \<Rightarrow> char list" where
  "loadOPReturn opReturn opReturnSizeLimit =
     (let limit = (case opReturnSizeLimit of None \<Rightarrow> TX_OP_RETURN_SIZE_LIMIT | Some l \<Rightarrow> l);
          buffer = Buffer_from opReturn
      in Buffer_slice buffer (Fin 0) limit)"

definition hasSegwit :: "string list \<Rightarrow> bool" where
  "hasSegwit inputEncodings =
     (1 \<le> length (filter (\<lambda>encoding. String_includes encoding ''P2WPKH'') inputEncodings))"

definition lookup_sum :: "(string \<times> rat) list \<Rightarrow> string list \<Rightarrow> jsval" where
  \<comment> \<open>\<open>encodings.map((encoding) => table[encoding] || 0).reduce((acc, cur) => acc + cur, 0)\<close>\<close>
  "lookup_sum table encodings =
     foldl (\<lambda>acc cur. js_plus acc cur) (Num (Fin 0))
       (map (\<lambda>encoding. js_or (get_property table encoding) (Num (Fin 0))) encodings)"

text \<open>
  \<open>vsize_encodings\<close> is the local variable \<open>vsize\<close> after the sums over the inputs and the
  outputs (lines 34 to 49), \<open>vsize_acc\<close> the same variable after the payload block, as it
  stands before the final \<open>Math.ceil\<close>.
\<close>

definition vsize_encodings :: "string list \<Rightarrow> string list \<Rightarrow> jsval" where
  "vsize_encodings inputEncodings outputEncodings =
     (let vsize = Num (Fin HEADER_VSIZE);
          segwit = hasSegwit inputEncodings;
          vsize = (if segwit then js_plus vsize (Num (Fin SEGWIT_HEADER_EXTENSION_VSIZE)) else vsize);
          vsize = js_plus vsize (lookup_sum INPUT_VSIZE_LOOKUP inputEncodings);
          vsize = (if segwit then js_plus vsize (Num (Fin SEGWIT_INPUT_WITNESS_ITEM_COUNT_VSIZE))
                   else vsize)
      in js_plus vsize (lookup_sum OUTPUT_VSIZE_LOOKUP outputEncodings))"

definition vsize_acc :: "string list \<Rightarrow> string list \<Rightarrow> string option \<Rightarrow> jsnum option \<Rightarrow> jsval" where
  "vsize_acc inputEncodings outputEncodings opReturn opReturnSizeLimit =
     (let limit = (case opReturnSizeLimit of None \<Rightarrow> TX_OP_RETURN_SIZE_LIMIT | Some l \<Rightarrow> l);
          vsize = vsize_encodings inputEncodings outputEncodings
      in case opReturn of
           None \<Rightarrow> vsize
         | Some payload \<Rightarrow>
             (let opReturnLength = Fin (of_nat (length (loadOPReturn payload (Some limit))));
                  vsize = js_plus vsize
                            (Num (num_mul (Fin OP_RETURN_OUTPUT_PREFIX_VSIZE)
                                    (Math_ceil (num_div opReturnLength limit))))
              in js_plus vsize (Num opReturnLength)))"

definition estimateVsize :: "string list \<Rightarrow> string list \<Rightarrow> string option \<Rightarrow> jsnum option \<Rightarrow> jsnum" where
  "estimateVsize inputEncodings outputEncodings opReturn opReturnSizeLimit =
     Math_ceil (ToNumber (vsize_acc inputEncodings outputEncodings opReturn opReturnSizeLimit))"

text \<open>
  The closed form of one table entry's contribution when the lookup yields a number or
  \<open>undefined\<close>: the entry's value, and \<open>0\<close> for a key the table does not have.
\<close>

definition table_cost :: "(string \<times> rat) list \<Rightarrow> string \<Rightarrow> rat" where
  "table_cost table key = (case map_of table key of Some v \<Rightarrow> v | None \<Rightarrow> 0)"

text \<open>
  The number that the accumulator holds after the two sums when every lookup yields a
  number or \<open>undefined\<close>.
\<close>

definition plain_total :: "string list \<Rightarrow> string list \<Rightarrow> rat" where
  "plain_total ins outs =
     10 + (if hasSegwit ins then 3 / 4 else 0)
        + sum_list (map (table_cost INPUT_VSIZE_LOOKUP) ins)
        + sum_list (map (table_cost OUTPUT_VSIZE_LOOKUP) outs)"

subsection \<open>The estimator with the engine's limit on strings\<close>

text \<open>
  \<open>estimateVsize\<close> above gives the value of a call in which the engine builds every string
  it is asked for. V8 refuses to build a string longer than its \<open>String::kMaxLength\<close> and
  throws \<open>RangeError: Invalid string length\<close> instead; the bound is the engine's, not the
  repository's, and is a parameter here (\<open>2^29 - 24\<close> in 64-bit Node.js). The source
  catches nothing, so the exception leaves \<open>estimateVsize\<close>. To follow it, an operand of
  \<open>+\<close> is a number or a text, the latter a string or an object that turns into one, known by
  its length. An inherited function prints as \<open>function name() { [native code] }\<close>, where
  the name is the key, except for \<open>constructor\<close>, which is the function \<open>Object\<close>;
  \<open>__proto__\<close> is \<open>Object.prototype\<close> itself and prints as \<open>[object Object]\<close>. The numbers
  that get printed are naturals, multiples of \<open>0.25\<close> and integers, below \<open>10^21\<close> in
  magnitude, which print in plain decimal notation, and \<open>NaN\<close>.
\<close>

datatype js_error = RangeError

datatype operand = ONum jsnum | OText nat

definition printed_length :: "string \<Rightarrow> nat" where
  "printed_length key =
     (if key = ''__proto__'' then length ''[object Object]''
      else if key = ''constructor'' then length ''function Object() { [native code] }''
      else length (''function '' @ key @ ''() { [native code] }''))"

definition lookup_operand :: "(string \<times> rat) list \<Rightarrow> string \<Rightarrow> operand" where
  \<comment> \<open>\<open>table[encoding] || 0\<close>\<close>
  "lookup_operand table key =
     (case map_of table key of
        Some v \<Rightarrow> ONum (Fin v)
      | None \<Rightarrow> if key \<in> set Object_prototype_keys then OText (printed_length key)
                else ONum (Fin 0))"

fun decimal_digits :: "nat \<Rightarrow> nat" where
  "decimal_digits n = (if n < 10 then 1 else 1 + decimal_digits (n div 10))"

declare decimal_digits.simps [simp del]

fun number_length :: "jsnum \<Rightarrow> nat" where
  \<comment> \<open>the length of \<open>String(x)\<close>: sign, integer digits, and \<open>.5\<close>, \<open>.25\<close> or \<open>.75\<close>\<close>
  "number_length NaN = length ''NaN''"
| "number_length PInf = length ''Infinity''"
| "number_length NInf = length ''-Infinity''"
| "number_length (Fin r) =
     (if r < 0 then 1 else 0) + decimal_digits (nat \<lfloor>\<bar>r\<bar>\<rfloor>)
       + (let f = \<bar>r\<bar> - of_int \<lfloor>\<bar>r\<bar>\<rfloor> in if f = 0 then 0 else if f = 1 / 2 then 2 else 3)"

definition new_string :: "nat \<Rightarrow> nat \<Rightarrow> js_error + operand" where
  "new_string maxLength n = (if maxLength < n then Inl RangeError else Inr (OText n))"

fun plus_checked :: "nat \<Rightarrow> operand \<Rightarrow> operand \<Rightarrow> js_error + operand" where
  "plus_checked maxLength (ONum a) (ONum b) = Inr (ONum (num_add a b))"
| "plus_checked maxLength (ONum a) (OText m) = new_string maxLength (number_length a + m)"
| "plus_checked maxLength (OText n) (ONum b) = new_string maxLength (n + number_length b)"
| "plus_checked maxLength (OText n) (OText m) = new_string maxLength (n + m)"

definition and_then :: "js_error + 'a \<Rightarrow> ('a \<Rightarrow> js_error + 'b) \<Rightarrow> js_error + 'b" where
  "and_then x f = (case x of Inl e \<Rightarrow> Inl e | Inr a \<Rightarrow> f a)"

fun reduce_checked :: "nat \<Rightarrow> operand \<Rightarrow> operand list \<Rightarrow> js_error + operand" where
  "reduce_checked maxLength a [] = Inr a"
| "reduce_checked maxLength a (x # xs) =
     and_then (plus_checked maxLength a x) (\<lambda>a'. reduce_checked maxLength a' xs)"

definition lookup_sum_checked ::
  "nat \<Rightarrow> (string \<times> rat) list \<Rightarrow> string list \<Rightarrow> js_error + operand" where
  "lookup_sum_checked maxLength table encodings =
     reduce_checked maxLength (ONum (Fin 0)) (map (lookup_operand table) encodings)"

fun operand_number :: "operand \<Rightarrow> jsnum" where
  \<comment> \<open>\<open>ToNumber\<close>: a text that holds the printed form of an object reads as \<open>NaN\<close>\<close>
  "operand_number (ONum a) = a"
| "operand_number (OText n) = NaN"

definition estimateVsize_checked ::
  "nat \<Rightarrow> string list \<Rightarrow> string list \<Rightarrow> string option \<Rightarrow> jsnum option \<Rightarrow> js_error + jsnum" where
  "estimateVsize_checked maxLength inputEncodings outputEncodings opReturn opReturnSizeLimit =
     (let limit = (case opReturnSizeLimit of None \<Rightarrow> TX_OP_RETURN_SIZE_LIMIT | Some l \<Rightarrow> l);
          segwit = hasSegwit inputEncodings
      in
      and_then (if segwit
                then plus_checked maxLength (ONum (Fin HEADER_VSIZE))
                       (ONum (Fin SEGWIT_HEADER_EXTENSION_VSIZE))
                else Inr (ONum (Fin HEADER_VSIZE))) (\<lambda>vsize.
      and_then (lookup_sum_checked maxLength INPUT_VSIZE_LOOKUP inputEncodings) (\<lambda>sum_in.
      and_then (plus_checked maxLength vsize sum_in) (\<lambda>vsize.
      and_then (if segwit
                then plus_checked maxLength vsize (ONum (Fin SEGWIT_INPUT_WITNESS_ITEM_COUNT_VSIZE))
                else Inr vsize) (\<lambda>vsize.
      and_then (lookup_sum_checked maxLength OUTPUT_VSIZE_LOOKUP outputEncodings) (\<lambda>sum_out.
      and_then (plus_checked maxLength vsize sum_out) (\<lambda>vsize.
      and_then (case opReturn of
                  None \<Rightarrow> Inr vsize
                | Some payload \<Rightarrow>
                    (let opReturnLength = Fin (of_nat (length (loadOPReturn payload (Some limit))))
                     in and_then
                          (plus_checked maxLength vsize
                             (ONum (num_mul (Fin OP_RETURN_OUTPUT_PREFIX_VSIZE)
                                      (Math_ceil (num_div opReturnLength limit)))))
                          (\<lambda>vsize. plus_checked maxLength vsize (ONum opReturnLength)))) (\<lambda>vsize.
      Inr (Math_ceil (operand_number vsize))))))))))"

text \<open>An operand and the value that the estimator without the limit computes with.\<close>

fun same_value :: "operand \<Rightarrow> jsval \<Rightarrow> bool" where
  "same_value (ONum a) v = (v = Num a)"
| "same_value (OText n) v = (v = Obj \<or> v = Str)"

section \<open>Evaluation and closed forms\<close>

lemmas vsize_consts =
  HEADER_VSIZE_def SEGWIT_HEADER_EXTENSION_VSIZE_def INPUT_VSIZE_LOOKUP_def
  SEGWIT_INPUT_WITNESS_ITEM_COUNT_VSIZE_def OUTPUT_VSIZE_LOOKUP_def
  OP_RETURN_OUTPUT_PREFIX_VSIZE_def TX_OP_RETURN_SIZE_LIMIT_def

lemmas vsize_defs =
  estimateVsize_def vsize_acc_def vsize_encodings_def lookup_sum_def hasSegwit_def loadOPReturn_def
  get_property_def js_or_def Buffer_slice_def Buffer_from_def adjustOffset_def
  Object_prototype_keys_def Let_def

lemma ceiling_rat_numeral [simp]:
  "\<lceil>numeral a / numeral b :: rat\<rceil> = - (- numeral a div numeral b)"
  using ceiling_divide_eq_div [of "numeral a" "numeral b", where 'a = rat] by simp

subsection \<open>Rounding\<close>

lemma round_double_0 [simp]: "round_double 0 = Fin 0"
  by (simp add: round_double_def)

lemma round_double_1 [simp]: "round_double 1 = Fin 1"
  by code_simp

lemma round_double_tenth:
  "round_double (1 / 10) = Fin (3602879701896397 / 36028797018963968)"
  by code_simp

lemma pow2_pos: "0 < pow2 k"
  by (simp add: pow2_def)

lemma pow2_powi: "pow2 k = 2 powi k"
  by (simp add: pow2_def power_int_def field_simps)

lemma pow2_add: "pow2 (x + y) = pow2 x * pow2 y"
  by (simp add: pow2_powi power_int_add)

lemma bitlen_pow2_bounds:
  assumes "0 < x"
  shows "pow2 (bitlen x - 1) \<le> of_int x" and "of_int x < pow2 (bitlen x)"
proof -
  from bitlen_bounds [OF assms]
  have 1: "2 ^ nat (bitlen x - 1) \<le> x" and 2: "x < 2 ^ nat (bitlen x)" by simp_all
  have b: "1 \<le> bitlen x" using assms by (simp add: bitlen_alt_def)
  have "rat_of_int (2 ^ nat (bitlen x - 1)) \<le> of_int x" using 1 by (simp only: of_int_le_iff)
  then show "pow2 (bitlen x - 1) \<le> of_int x" using b by (simp add: pow2_def)
  have "rat_of_int x < of_int (2 ^ nat (bitlen x))" using 2 by (simp only: of_int_less_iff)
  then show "of_int x < pow2 (bitlen x)" using b by (simp add: pow2_def)
qed

text \<open>\<open>ilog2\<close> is the exponent of the leading bit.\<close>

lemma ilog2_bounds:
  assumes "0 < a"
  shows "pow2 (ilog2 a) \<le> a \<and> a < pow2 (ilog2 a + 1)"
proof -
  obtain n d where q: "quotient_of a = (n, d)" by (cases "quotient_of a")
  then have d: "0 < d" and a: "a = of_int n / of_int d"
    by (simp_all add: quotient_of_denom_pos quotient_of_div)
  have n: "0 < n" using assms a d by (simp add: zero_less_divide_iff)
  define k where "k = bitlen n - bitlen d"
  note bn = bitlen_pow2_bounds [OF n] and bd = bitlen_pow2_bounds [OF d]
  have up: "a < pow2 (k + 1)"
  proof -
    have "a * of_int d < pow2 (bitlen n)" using bn(2) a d by simp
    also have "\<dots> = pow2 (k + 1) * pow2 (bitlen d - 1)"
      by (simp add: k_def flip: pow2_add)
    also have "\<dots> \<le> pow2 (k + 1) * of_int d"
      using bd(1) pow2_pos [of "k + 1"] by (simp add: mult_left_mono)
    finally show ?thesis using d by simp
  qed
  have lo: "pow2 (k - 1) \<le> a"
  proof -
    have "pow2 (k - 1) * of_int d \<le> pow2 (k - 1) * pow2 (bitlen d)"
      using bd(2) pow2_pos [of "k - 1"] by (simp add: mult_left_mono less_imp_le)
    also have "\<dots> = pow2 (bitlen n - 1)"
      by (simp add: k_def flip: pow2_add)
    also have "\<dots> \<le> a * of_int d" using bn(1) a d by simp
    finally show ?thesis using d by simp
  qed
  have "ilog2 a = (if pow2 k \<le> a then k else k - 1)"
    by (simp add: ilog2_def q k_def)
  then show ?thesis using up lo by (auto simp: not_le)
qed


subsection \<open>The segwit test\<close>

lemma String_includes_sublist: "String_includes s needle \<longleftrightarrow> sublist needle s"
  by (induction s) (simp_all add: sublist_Cons_right)

lemma hasSegwit_iff: "hasSegwit ins \<longleftrightarrow> (\<exists>e\<in>set ins. String_includes e ''P2WPKH'')"
proof -
  have "1 \<le> length (filter P xs) \<longleftrightarrow> (\<exists>x\<in>set xs. P x)" for P :: "string \<Rightarrow> bool" and xs
    by (induction xs) auto
  then show ?thesis by (simp add: hasSegwit_def)
qed

subsection \<open>The sums over the tables\<close>

lemma lookup_entry:
  "js_or (get_property table e) (Num (Fin 0)) =
     (if get_property table e = Obj then Obj else Num (Fin (table_cost table e)))"
  by (auto simp: js_or_def get_property_def table_cost_def split: option.splits)

lemma foldl_js_plus_Str: "foldl js_plus Str vs = Str"
  by (induction vs) simp_all

lemma foldl_lookup:
  "foldl js_plus (Num (Fin a)) (map (\<lambda>e. js_or (get_property table e) (Num (Fin 0))) es) =
     (if \<exists>e\<in>set es. get_property table e = Obj then Str
      else Num (Fin (a + sum_list (map (table_cost table) es))))"
proof (induction es arbitrary: a)
  case Nil
  then show ?case by simp
next
  case (Cons e es)
  show ?case
  proof (cases "get_property table e = Obj")
    case True
    then show ?thesis by (simp add: lookup_entry foldl_js_plus_Str)
  next
    case False
    then show ?thesis using Cons.IH [of "a + table_cost table e"]
      by (simp add: lookup_entry add.assoc)
  qed
qed

lemma lookup_sum_closed:
  "lookup_sum table es =
     (if \<exists>e\<in>set es. get_property table e = Obj then Str
      else Num (Fin (sum_list (map (table_cost table) es))))"
  unfolding lookup_sum_def using foldl_lookup [of 0 table es] by simp

lemma get_property_input_Obj:
  "get_property INPUT_VSIZE_LOOKUP e = Obj \<longleftrightarrow> e \<in> set Object_prototype_keys"
  by (auto simp: get_property_def INPUT_VSIZE_LOOKUP_def Object_prototype_keys_def)

lemma get_property_output_Obj:
  "get_property OUTPUT_VSIZE_LOOKUP e = Obj \<longleftrightarrow> e \<in> set Object_prototype_keys"
  by (auto simp: get_property_def OUTPUT_VSIZE_LOOKUP_def Object_prototype_keys_def)


lemma table_cost_nonneg:
  "0 \<le> table_cost INPUT_VSIZE_LOOKUP e" "0 \<le> table_cost OUTPUT_VSIZE_LOOKUP e"
  by (simp_all add: table_cost_def INPUT_VSIZE_LOOKUP_def OUTPUT_VSIZE_LOOKUP_def)

lemma sum_cost_nonneg:
  "0 \<le> sum_list (map (table_cost INPUT_VSIZE_LOOKUP) es)"
  "0 \<le> sum_list (map (table_cost OUTPUT_VSIZE_LOOKUP) es)"
  by (induction es) (simp_all add: table_cost_nonneg)


subsection \<open>The accumulator\<close>

lemma vsize_encodings_closed:
  "vsize_encodings ins outs =
     (if \<exists>e\<in>set ins \<union> set outs. e \<in> set Object_prototype_keys then Str
      else Num (Fin (10 + (if hasSegwit ins then 1 / 2 else 0)
                        + sum_list (map (table_cost INPUT_VSIZE_LOOKUP) ins)
                        + (if hasSegwit ins then 1 / 4 else 0)
                        + sum_list (map (table_cost OUTPUT_VSIZE_LOOKUP) outs))))"
  by (auto simp: vsize_encodings_def Let_def lookup_sum_closed get_property_input_Obj
      get_property_output_Obj HEADER_VSIZE_def SEGWIT_HEADER_EXTENSION_VSIZE_def
      SEGWIT_INPUT_WITNESS_ITEM_COUNT_VSIZE_def)


lemma vsize_acc_None: "vsize_acc ins outs None sizeLimit = vsize_encodings ins outs"
  by (simp add: vsize_acc_def)


subsection \<open>The payload\<close>

lemma adjustOffset_le: "adjustOffset l len \<le> len"
  by (cases l) (auto simp: adjustOffset_def nat_le_iff floor_le_iff le_floor_iff split: if_splits)

lemma adjustOffset_zero: "adjustOffset (Fin 0) len = 0"
  by (simp add: adjustOffset_def)



lemma length_loadOPReturn:
  "length (loadOPReturn payload (Some l)) = adjustOffset l (length payload)"
  using adjustOffset_le [of l "length payload"]
  by (simp add: loadOPReturn_def Buffer_slice_def Buffer_from_def Let_def adjustOffset_zero)

subsection \<open>The limit on strings\<close>

text \<open>A call that returns under the limit returns what \<open>estimateVsize\<close> says.\<close>

lemma and_then_Inr:
  "and_then x f = Inr v \<Longrightarrow> \<exists>a. x = Inr a \<and> f a = Inr v"
  by (cases x) (simp_all add: and_then_def)

lemma lookup_operand_value:
  "same_value (lookup_operand table e) (js_or (get_property table e) (Num (Fin 0)))"
  by (auto simp: lookup_operand_def js_or_def get_property_def split: option.splits)

lemma plus_checked_value:
  "plus_checked K a x = Inr a' \<Longrightarrow> same_value a va \<Longrightarrow> same_value x vx \<Longrightarrow>
   same_value a' (js_plus va vx)"
  by (cases a; cases x) (auto simp: new_string_def split: if_splits)

lemma reduce_checked_value:
  "reduce_checked K a xs = Inr a' \<Longrightarrow> same_value a va \<Longrightarrow>
   list_all2 same_value xs vs \<Longrightarrow> same_value a' (foldl js_plus va vs)"
proof (induction xs arbitrary: a va vs)
  case Nil
  then show ?case by simp
next
  case (Cons x xs)
  from Cons.prems(3) obtain v vs' where vs: "vs = v # vs'" "same_value x v"
    "list_all2 same_value xs vs'"
    by (auto simp: list_all2_Cons1)
  from Cons.prems(1) obtain b where b: "plus_checked K a x = Inr b"
    "reduce_checked K b xs = Inr a'"
    by (auto dest: and_then_Inr)
  from plus_checked_value [OF b(1) Cons.prems(2) vs(2)]
  have "same_value b (js_plus va v)" .
  from Cons.IH [OF b(2) this vs(3)] show ?case by (simp add: vs(1))
qed

lemma lookup_sum_checked_value:
  assumes "lookup_sum_checked K table es = Inr a"
  shows "same_value a (lookup_sum table es)"
proof -
  have "list_all2 same_value (map (lookup_operand table) es)
      (map (\<lambda>e. js_or (get_property table e) (Num (Fin 0))) es)"
    by (simp add: list_all2_map1 list_all2_map2 list_all2_same lookup_operand_value)
  with assms reduce_checked_value [of K "ONum (Fin 0)" _ a "Num (Fin 0)"]
  show ?thesis by (simp add: lookup_sum_checked_def lookup_sum_def)
qed

lemma same_value_number: "same_value a v \<Longrightarrow> operand_number a = ToNumber v"
  by (cases a) auto

lemma estimateVsize_checked_value:
  assumes "estimateVsize_checked K ins outs opReturn sizeLimit = Inr v"
  shows "v = estimateVsize ins outs opReturn sizeLimit"
proof -
  define limit where
    "limit = (case sizeLimit of None \<Rightarrow> TX_OP_RETURN_SIZE_LIMIT | Some l \<Rightarrow> l)"
  define h where "h = Num (Fin HEADER_VSIZE)"
  define v1 where
    "v1 = (if hasSegwit ins then js_plus h (Num (Fin SEGWIT_HEADER_EXTENSION_VSIZE)) else h)"
  define v2 where "v2 = js_plus v1 (lookup_sum INPUT_VSIZE_LOOKUP ins)"
  define v3 where
    "v3 = (if hasSegwit ins then js_plus v2 (Num (Fin SEGWIT_INPUT_WITNESS_ITEM_COUNT_VSIZE))
           else v2)"
  define v4 where "v4 = js_plus v3 (lookup_sum OUTPUT_VSIZE_LOOKUP outs)"
  have enc: "vsize_encodings ins outs = v4"
    by (simp add: vsize_encodings_def Let_def v4_def v3_def v2_def v1_def h_def)
  from assms obtain a1 s1 a2 a3 s2 a4 a5 where
    1: "(if hasSegwit ins
         then plus_checked K (ONum (Fin HEADER_VSIZE)) (ONum (Fin SEGWIT_HEADER_EXTENSION_VSIZE))
         else Inr (ONum (Fin HEADER_VSIZE))) = Inr a1"
    and 2: "lookup_sum_checked K INPUT_VSIZE_LOOKUP ins = Inr s1"
    and 3: "plus_checked K a1 s1 = Inr a2"
    and 4: "(if hasSegwit ins
         then plus_checked K a2 (ONum (Fin SEGWIT_INPUT_WITNESS_ITEM_COUNT_VSIZE))
         else Inr a2) = Inr a3"
    and 5: "lookup_sum_checked K OUTPUT_VSIZE_LOOKUP outs = Inr s2"
    and 6: "plus_checked K a3 s2 = Inr a4"
    and 7: "(case opReturn of
               None \<Rightarrow> Inr a4
             | Some payload \<Rightarrow>
                 and_then
                   (plus_checked K a4
                      (ONum (num_mul (Fin OP_RETURN_OUTPUT_PREFIX_VSIZE)
                         (Math_ceil (num_div (Fin (of_nat (length (loadOPReturn payload (Some limit)))))
                            limit)))))
                   (\<lambda>vsize. plus_checked K vsize
                      (ONum (Fin (of_nat (length (loadOPReturn payload (Some limit)))))))) = Inr a5"
    and 8: "v = Math_ceil (operand_number a5)"
    unfolding estimateVsize_checked_def Let_def limit_def [symmetric]
    by (blast dest!: and_then_Inr)
  have r1: "same_value a1 v1"
    using 1 by (auto simp: v1_def h_def split: if_splits)
  have r2: "same_value a2 v2"
    unfolding v2_def by (rule plus_checked_value [OF 3 r1 lookup_sum_checked_value [OF 2]])
  have r3: "same_value a3 v3"
  proof (cases "hasSegwit ins")
    case True
    with 4 have "plus_checked K a2 (ONum (Fin SEGWIT_INPUT_WITNESS_ITEM_COUNT_VSIZE)) = Inr a3"
      by simp
    from plus_checked_value [OF this r2, of "Num (Fin SEGWIT_INPUT_WITNESS_ITEM_COUNT_VSIZE)"]
    show ?thesis by (simp add: v3_def True)
  next
    case False
    with 4 r2 show ?thesis by (simp add: v3_def)
  qed
  have r4: "same_value a4 v4"
    unfolding v4_def by (rule plus_checked_value [OF 6 r3 lookup_sum_checked_value [OF 5]])
  have r5: "same_value a5 (vsize_acc ins outs opReturn sizeLimit)"
  proof (cases opReturn)
    case None
    with 7 r4 show ?thesis by (simp add: vsize_acc_def enc)
  next
    case (Some payload)
    define n where "n = Fin (of_nat (length (loadOPReturn payload (Some limit))))"
    define t where "t = num_mul (Fin OP_RETURN_OUTPUT_PREFIX_VSIZE) (Math_ceil (num_div n limit))"
    from 7 obtain b where b: "plus_checked K a4 (ONum t) = Inr b"
      "plus_checked K b (ONum n) = Inr a5"
      unfolding Some t_def n_def by (auto dest: and_then_Inr)
    from plus_checked_value [OF b(1) r4, of "Num t"] have "same_value b (js_plus v4 (Num t))"
      by simp
    from plus_checked_value [OF b(2) this, of "Num n"]
    have "same_value a5 (js_plus (js_plus v4 (Num t)) (Num n))" by simp
    then show ?thesis
      by (simp add: Some vsize_acc_def Let_def enc t_def n_def limit_def)
  qed
  show ?thesis
    unfolding 8 estimateVsize_def using same_value_number [OF r5] by simp
qed

text \<open>
  Where no encoding names an inherited property, nothing is concatenated and the call
  returns whatever the limit is.
\<close>

lemma reduce_checked_plain:
  "\<forall>e\<in>set es. e \<notin> set Object_prototype_keys \<Longrightarrow>
   reduce_checked K (ONum (Fin a)) (map (lookup_operand table) es) =
     Inr (ONum (Fin (a + sum_list (map (table_cost table) es))))"
proof (induction es arbitrary: a)
  case Nil
  then show ?case by simp
next
  case (Cons e es)
  have "lookup_operand table e = ONum (Fin (table_cost table e))"
    using Cons.prems by (simp add: lookup_operand_def table_cost_def split: option.splits)
  with Cons show ?case by (simp add: and_then_def add.assoc)
qed

lemma lookup_sum_checked_plain:
  "\<forall>e\<in>set es. e \<notin> set Object_prototype_keys \<Longrightarrow>
   lookup_sum_checked K table es = Inr (ONum (Fin (sum_list (map (table_cost table) es))))"
  using reduce_checked_plain [of es K 0 table] by (simp add: lookup_sum_checked_def)

lemma estimateVsize_checked_plain:
  assumes "\<forall>e \<in> set ins \<union> set outs. e \<notin> set Object_prototype_keys"
  shows "estimateVsize_checked K ins outs opReturn sizeLimit =
           Inr (estimateVsize ins outs opReturn sizeLimit)"
proof -
  have i: "\<forall>e\<in>set ins. e \<notin> set Object_prototype_keys"
    and o: "\<forall>e\<in>set outs. e \<notin> set Object_prototype_keys"
    using assms by auto
  have "\<exists>v. estimateVsize_checked K ins outs opReturn sizeLimit = Inr v"
    unfolding estimateVsize_checked_def Let_def
    by (cases opReturn)
      (simp_all add: lookup_sum_checked_plain [OF i] lookup_sum_checked_plain [OF o] and_then_def)
  then show ?thesis using estimateVsize_checked_value by blast
qed

text \<open>The sum over copies of one inherited key.\<close>

lemma reduce_checked_replicate:
  "s \<le> K \<Longrightarrow> reduce_checked K (OText s) (replicate n (OText m)) =
     (if K < s + n * m then Inl RangeError else Inr (OText (s + n * m)))"
proof (induction n arbitrary: s)
  case 0
  then show ?case by simp
next
  case (Suc n)
  show ?case
  proof (cases "K < s + m")
    case True
    then show ?thesis by (simp add: new_string_def and_then_def trans_less_add1)
  next
    case False
    then have "s + m \<le> K" by simp
    from Suc.IH [OF this] False show ?thesis
      by (simp add: new_string_def and_then_def add.assoc)
  qed
qed

lemma lookup_sum_checked_constructor:
  "lookup_sum_checked K INPUT_VSIZE_LOOKUP (replicate (Suc n) ''constructor'') =
     (if K < 1 + Suc n * 35 then Inl RangeError else Inr (OText (1 + Suc n * 35)))"
proof -
  have item: "lookup_operand INPUT_VSIZE_LOOKUP ''constructor'' = OText 35"
    by (simp add: lookup_operand_def INPUT_VSIZE_LOOKUP_def Object_prototype_keys_def
        printed_length_def)
  have one: "decimal_digits 0 = 1"
    by (simp add: decimal_digits.simps)
  show ?thesis
  proof (cases "K < 36")
    case True
    then show ?thesis
      by (simp add: lookup_sum_checked_def item one new_string_def and_then_def)
  next
    case False
    then have "36 \<le> K" by simp
    from reduce_checked_replicate [OF this, of n 35] False show ?thesis
      by (simp add: lookup_sum_checked_def item one new_string_def and_then_def)
  qed
qed

lemma hasSegwit_constructor: "\<not> hasSegwit (replicate n ''constructor'')"
  by (auto simp: hasSegwit_iff)

lemma estimateVsize_checked_constructor:
  "estimateVsize_checked K (replicate (Suc n) ''constructor'') [] None None =
     (if K < 4 + Suc n * 35 then Inl RangeError else Inr NaN)"
proof -
  have ten: "decimal_digits 10 = 2"
    by (simp add: decimal_digits.simps)
  have out: "lookup_sum_checked K OUTPUT_VSIZE_LOOKUP [] = Inr (ONum (Fin 0))"
    by (simp add: lookup_sum_checked_def)
  have zero: "decimal_digits 0 = 1"
    by (simp add: decimal_digits.simps)
  show ?thesis
    unfolding estimateVsize_checked_def Let_def
    by (simp add: hasSegwit_constructor lookup_sum_checked_constructor out and_then_def
        new_string_def HEADER_VSIZE_def ten zero del: replicate.simps)
qed

text \<open>
  The quotient of 5 by the double nearest to \<open>-5/3\<close> is rounded to \<open>-3\<close>, so that the six-byte
  payload \<open>abcdef\<close> under that limit gives \<open>10 + 12 * (-3) + 5\<close>.
\<close>

lemma estimateVsize_rounded_quotient:
  "estimateVsize [] [] (Some ''abcdef'')
     (Some (Fin (- (7505999378950827 / 4503599627370496)))) = Fin (- 21)"
  by code_simp

section \<open>The claims\<close>

subsection \<open>The payload block\<close>




subsection \<open>The segwit overheads\<close>

text \<open>
  C2, as the code has it: for input and output lists whose lookups yield numbers, the
  accumulator holds the header, the marker+flag overhead of \<open>0.5\<close> once if and only if at
  least one input encoding contains \<open>P2WPKH\<close> (as the native \<open>P2WPKH\<close> and the wrapped
  \<open>P2SH-P2WPKH\<close> both do), the table costs of the inputs, the witness-item-count overhead
  of \<open>0.25\<close> once under the same condition, however many such inputs there are, and the
  table costs of the outputs.
\<close>

theorem estimateVsize_segwit_once:
  assumes "\<forall>e \<in> set ins \<union> set outs. e \<notin> set Object_prototype_keys"
  shows "vsize_encodings ins outs =
           Num (Fin (HEADER_VSIZE
                 + (if \<exists>e\<in>set ins. String_includes e ''P2WPKH''
                    then SEGWIT_HEADER_EXTENSION_VSIZE else 0)
                 + (\<Sum>e\<leftarrow>ins. table_cost INPUT_VSIZE_LOOKUP e)
                 + (if \<exists>e\<in>set ins. String_includes e ''P2WPKH''
                    then SEGWIT_INPUT_WITNESS_ITEM_COUNT_VSIZE else 0)
                 + (\<Sum>e\<leftarrow>outs. table_cost OUTPUT_VSIZE_LOOKUP e)))"
  using assms
  by (simp add: vsize_encodings_closed hasSegwit_iff HEADER_VSIZE_def
      SEGWIT_HEADER_EXTENSION_VSIZE_def SEGWIT_INPUT_WITNESS_ITEM_COUNT_VSIZE_def)

text \<open>The theorem at three segwit inputs: each overhead is there once.\<close>

theorem estimateVsize_segwit_once_witness:
  "list_all (\<lambda>e. e \<notin> set Object_prototype_keys)
     ([''P2WPKH'', ''P2SH-P2WPKH'', ''P2WPKH''] @ [''P2PKH'']) \<and>
   vsize_encodings [''P2WPKH'', ''P2SH-P2WPKH'', ''P2WPKH''] [''P2PKH''] =
     Num (Fin (10 + 1 / 2 + (68 + 91 + 68) + 1 / 4 + 34))"
  using estimateVsize_segwit_once [of "[''P2WPKH'', ''P2SH-P2WPKH'', ''P2WPKH'']" "[''P2PKH'']"]
  by (simp add: table_cost_def vsize_consts Object_prototype_keys_def)

text \<open>
  C2 as it is written fails at the single input \<open>P2SH-P2WPKH\<close>: no input encoding is
  \<open>P2WPKH\<close>, and both overheads are in the accumulator (\<open>101.75\<close>, returned as 102).
\<close>

theorem estimateVsize_segwit_once_counterexample:
  "''P2WPKH'' \<notin> set [''P2SH-P2WPKH''] \<and>
   vsize_encodings [''P2SH-P2WPKH''] [] = Num (Fin (10 + 1 / 2 + 91 + 1 / 4)) \<and>
   estimateVsize [''P2SH-P2WPKH''] [] None None = Fin 102"
  by (simp add: vsize_defs vsize_consts)

subsection \<open>Encodings that the tables do not have\<close>




subsection \<open>The placeholder\<close>

text \<open>
  C4: \<open>estimateVsize(["P2WPKH"], [])\<close> without a payload returns 79, the value of the
  exported constant \<open>PLACEHOLDER_VSIZE\<close>.
\<close>

theorem estimateVsize_placeholder:
  "estimateVsize [''P2WPKH''] [] None None = Fin 79 \<and> PLACEHOLDER_VSIZE = Fin 79"
  by (simp add: vsize_defs vsize_consts PLACEHOLDER_VSIZE_def)

subsection \<open>Order of the encodings\<close>



subsection \<open>A call that throws\<close>

text \<open>
  C6 says that \<open>estimateVsize\<close> never throws, for any input. The source has no \<open>throw\<close> of
  its own, but an inherited key turns the sum into a concatenation of strings, and the
  engine throws once a string would be longer than its limit. With V8's limit of
  \<open>2^29 - 24\<close>, 15339168 copies of \<open>constructor\<close> as the inputs still give a string of
  536870884 characters, which reads as \<open>NaN\<close>; with 15339169 copies the sum at lines 42 to
  44 asks for a string of 536870916 characters and the call throws \<open>RangeError\<close>.
\<close>

theorem estimateVsize_invalid_string_length:
  "estimateVsize_checked (2 ^ 29 - 24) (replicate 15339168 ''constructor'') [] None None =
     Inr NaN \<and>
   lookup_sum_checked (2 ^ 29 - 24) INPUT_VSIZE_LOOKUP (replicate 15339169 ''constructor'') =
     Inl RangeError \<and>
   estimateVsize_checked (2 ^ 29 - 24) (replicate 15339169 ''constructor'') [] None None =
     Inl RangeError"
proof -
  have a: "(15339168::nat) = Suc 15339167" and b: "(15339169::nat) = Suc 15339168"
    by simp_all
  have 1: "estimateVsize_checked (2 ^ 29 - 24) (replicate 15339168 ''constructor'') [] None None =
     Inr NaN"
    unfolding a estimateVsize_checked_constructor by simp
  have 2: "lookup_sum_checked (2 ^ 29 - 24) INPUT_VSIZE_LOOKUP
      (replicate 15339169 ''constructor'') = Inl RangeError"
    unfolding b lookup_sum_checked_constructor by simp
  have 3: "estimateVsize_checked (2 ^ 29 - 24) (replicate 15339169 ''constructor'') [] None None =
     Inl RangeError"
    unfolding b estimateVsize_checked_constructor by simp
  from 1 2 3 show ?thesis by blast
qed

subsection \<open>The segwit test is a substring test\<close>

text \<open>
  C8: the segwit overheads (\<open>0.5 + 0.25 = 0.75\<close> in total) are added if and only if some
  element of \<open>inputEncodings\<close> contains \<open>P2WPKH\<close> as a substring. The flag that guards both
  additions is that test; where the lookups yield numbers the accumulator is the header,
  the table costs and \<open>0.75\<close> under exactly that condition, whatever the outputs are. A
  \<open>P2SH-P2WPKH\<close> input triggers them; \<open>XP2WPKH\<close> triggers them at a table cost of zero
  (11 is returned); a \<open>P2WPKH\<close> output does not (\<open>10 + 31\<close>).
\<close>

theorem estimateVsize_segwit_substring:
  "(hasSegwit ins \<longleftrightarrow> (\<exists>e\<in>set ins. sublist ''P2WPKH'' e)) \<and>
   vsize_encodings ins outs =
     (if \<exists>e\<in>set ins \<union> set outs. e \<in> set Object_prototype_keys then Str
      else Num (Fin (HEADER_VSIZE + (\<Sum>e\<leftarrow>ins. table_cost INPUT_VSIZE_LOOKUP e)
                       + (\<Sum>e\<leftarrow>outs. table_cost OUTPUT_VSIZE_LOOKUP e)
                       + (if \<exists>e\<in>set ins. sublist ''P2WPKH'' e then 1 / 2 + 1 / 4 else 0)))) \<and>
   hasSegwit [''P2SH-P2WPKH''] \<and>
   hasSegwit [''XP2WPKH''] \<and> table_cost INPUT_VSIZE_LOOKUP ''XP2WPKH'' = 0 \<and>
   estimateVsize [''XP2WPKH''] [] None None = Fin 11 \<and>
   vsize_encodings [] [''P2WPKH''] = Num (Fin (10 + 31))"
proof -
  have 1: "hasSegwit ins \<longleftrightarrow> (\<exists>e\<in>set ins. sublist ''P2WPKH'' e)"
    by (simp add: hasSegwit_iff String_includes_sublist)
  have 2: "vsize_encodings ins outs =
     (if \<exists>e\<in>set ins \<union> set outs. e \<in> set Object_prototype_keys then Str
      else Num (Fin (HEADER_VSIZE + (\<Sum>e\<leftarrow>ins. table_cost INPUT_VSIZE_LOOKUP e)
                       + (\<Sum>e\<leftarrow>outs. table_cost OUTPUT_VSIZE_LOOKUP e)
                       + (if \<exists>e\<in>set ins. sublist ''P2WPKH'' e then 1 / 2 + 1 / 4 else 0))))"
    unfolding 1 [symmetric] by (simp add: vsize_encodings_closed HEADER_VSIZE_def)
  have 3: "hasSegwit [''P2SH-P2WPKH'']" "hasSegwit [''XP2WPKH'']"
    by (simp_all add: hasSegwit_def)
  have 4: "table_cost INPUT_VSIZE_LOOKUP ''XP2WPKH'' = 0"
    by (simp add: table_cost_def INPUT_VSIZE_LOOKUP_def)
  have 5: "estimateVsize [''XP2WPKH''] [] None None = Fin 11"
    by (simp add: vsize_defs vsize_consts)
  have 6: "vsize_encodings [] [''P2WPKH''] = Num (Fin (10 + 31))"
    by (simp add: vsize_defs vsize_consts)
  from 1 2 3 4 5 6 show ?thesis by blast
qed

subsection \<open>The empty payload\<close>



subsection \<open>Growth with the lists\<close>

text \<open>
  Where no encoding names a property inherited from \<open>Object.prototype\<close>, the result does
  not go down when an encoding is appended to either list, and without a payload it is
  at least the header's 10.
\<close>

lemma vsize_encodings_plain:
  "\<forall>e \<in> set ins \<union> set outs. e \<notin> set Object_prototype_keys \<Longrightarrow>
   vsize_encodings ins outs = Num (Fin (plain_total ins outs))"
  by (simp add: vsize_encodings_closed plain_total_def)

lemma hasSegwit_append: "hasSegwit ins \<Longrightarrow> hasSegwit (ins @ [e])"
  by (auto simp: hasSegwit_iff)

lemma plain_total_mono:
  "plain_total ins outs \<le> plain_total (ins @ [e]) outs"
  "plain_total ins outs \<le> plain_total ins (outs @ [e])"
  using table_cost_nonneg(1) [of e] table_cost_nonneg(2) [of e] hasSegwit_append [of ins e]
  by (auto simp: plain_total_def)

lemma plain_total_ge_header: "10 \<le> plain_total ins outs"
  using sum_cost_nonneg(1) [of ins] sum_cost_nonneg(2) [of outs] by (simp add: plain_total_def)

lemma estimateVsize_plain_ge_header:
  assumes "\<forall>e \<in> set ins \<union> set outs. e \<notin> set Object_prototype_keys"
  shows "num_le (Fin 10) (estimateVsize ins outs None sizeLimit)"
proof -
  have "(10::int) \<le> \<lceil>plain_total ins outs\<rceil>"
    using plain_total_ge_header [of ins outs] by (simp add: le_ceiling_iff)
  then have "(10::rat) \<le> of_int \<lceil>plain_total ins outs\<rceil>" by linarith
  then show ?thesis
    by (auto simp: estimateVsize_def vsize_acc_None vsize_encodings_plain [OF assms] le_less)
qed

lemma estimateVsize_mono_plain:
  assumes le: "plain_total ins outs \<le> plain_total ins' outs'"
    and p: "\<forall>e \<in> set ins \<union> set outs. e \<notin> set Object_prototype_keys"
    and p': "\<forall>e \<in> set ins' \<union> set outs'. e \<notin> set Object_prototype_keys"
  shows "\<not> num_less (estimateVsize ins' outs' opReturn sizeLimit)
                    (estimateVsize ins outs opReturn sizeLimit)"
proof (cases opReturn)
  case None
  have "\<lceil>plain_total ins outs\<rceil> \<le> \<lceil>plain_total ins' outs'\<rceil>"
    using le by (rule ceiling_mono)
  then show ?thesis
    by (simp add: None estimateVsize_def vsize_acc_None vsize_encodings_plain [OF p]
        vsize_encodings_plain [OF p'] not_less)
next
  case (Some payload)
  define l where "l = (case sizeLimit of None \<Rightarrow> TX_OP_RETURN_SIZE_LIMIT | Some l \<Rightarrow> l)"
  define n where "n = adjustOffset l (length payload)"
  define t where "t = num_mul (Fin 12) (Math_ceil (num_div (Fin (of_nat n)) l))"
  have acc: "vsize_acc i o' opReturn sizeLimit =
      js_plus (js_plus (vsize_encodings i o') (Num t)) (Num (Fin (of_nat n)))" for i o'
    by (simp add: Some vsize_acc_def Let_def length_loadOPReturn l_def t_def n_def
        OP_RETURN_OUTPUT_PREFIX_VSIZE_def)
  show ?thesis
  proof (cases t)
    case (Fin k)
    have "\<lceil>plain_total ins outs + k + of_nat n\<rceil> \<le> \<lceil>plain_total ins' outs' + k + of_nat n\<rceil>"
      using le by (intro ceiling_mono) simp
    then show ?thesis
      by (simp add: Fin estimateVsize_def acc vsize_encodings_plain [OF p]
          vsize_encodings_plain [OF p'] not_less)
  qed (simp_all add: estimateVsize_def acc vsize_encodings_plain [OF p]
        vsize_encodings_plain [OF p'])
qed

lemma estimateVsize_append_plain:
  assumes "\<forall>x \<in> set ins \<union> set outs \<union> {e}. x \<notin> set Object_prototype_keys"
  shows "\<not> num_less (estimateVsize (ins @ [e]) outs opReturn sizeLimit)
                    (estimateVsize ins outs opReturn sizeLimit) \<and>
         \<not> num_less (estimateVsize ins (outs @ [e]) opReturn sizeLimit)
                    (estimateVsize ins outs opReturn sizeLimit)"
  using assms estimateVsize_mono_plain [OF plain_total_mono(1) [of ins outs e]]
    estimateVsize_mono_plain [OF plain_total_mono(2) [of ins outs e]]
  by auto

lemma estimateVsize_append_plain_le:
  assumes "\<forall>x \<in> set ins \<union> set outs \<union> {e}. x \<notin> set Object_prototype_keys"
  shows "num_le (estimateVsize ins outs None sizeLimit)
                (estimateVsize (ins @ [e]) outs None sizeLimit) \<and>
         num_le (estimateVsize ins outs None sizeLimit)
                (estimateVsize ins (outs @ [e]) None sizeLimit)"
proof -
  have p: "\<forall>x \<in> set ins \<union> set outs. x \<notin> set Object_prototype_keys"
    and p1: "\<forall>x \<in> set (ins @ [e]) \<union> set outs. x \<notin> set Object_prototype_keys"
    and p2: "\<forall>x \<in> set ins \<union> set (outs @ [e]). x \<notin> set Object_prototype_keys"
    using assms by auto
  have "\<lceil>plain_total ins outs\<rceil> \<le> \<lceil>plain_total (ins @ [e]) outs\<rceil>"
    "\<lceil>plain_total ins outs\<rceil> \<le> \<lceil>plain_total ins (outs @ [e])\<rceil>"
    by (intro ceiling_mono plain_total_mono)+
  then show ?thesis
    by (auto simp: estimateVsize_def vsize_acc_None vsize_encodings_plain [OF p]
        vsize_encodings_plain [OF p1] vsize_encodings_plain [OF p2] le_less)
qed

text \<open>
  C10 says that appending an encoding never decreases the result and that, without a
  payload, the result is at least the header overhead of 10. At the input \<open>constructor\<close>
  the lookup \<open>INPUT_VSIZE_LOOKUP[encoding]\<close> finds the function that every object inherits,
  which is truthy, so that \<open>|| 0\<close> does not replace it; the sum becomes a string and the
  call returns \<open>NaN\<close>: appending \<open>constructor\<close> to the empty input list takes the result
  from 10 to \<open>NaN\<close>, which is not at least 10.
\<close>

theorem estimateVsize_inherited_key:
  "get_property INPUT_VSIZE_LOOKUP ''constructor'' = Obj \<and>
   lookup_sum INPUT_VSIZE_LOOKUP [''constructor''] = Str \<and>
   estimateVsize [] [] None None = Fin 10 \<and>
   estimateVsize ([] @ [''constructor'']) [] None None = NaN \<and>
   \<not> num_le (estimateVsize [] [] None None) (estimateVsize ([] @ [''constructor'']) [] None None) \<and>
   \<not> num_le (Fin 10) (estimateVsize [''constructor''] [] None None)"
  by (simp add: vsize_defs vsize_consts)

end
